theory Spec2Isabelle
  imports Complex_Main "HOL-Library.AList"
begin

chapter \<open>Adversarial training pipeline: early stopping, epoch loop, adversarial
  re-labelling and hyperparameter search trees\<close>

text \<open>
  A shallow embedding of \<^verbatim>\<open>src/training/train.py\<close> and \<^verbatim>\<open>src/utils.py\<close>.
  Python floats are modelled by \<^typ>\<open>real\<close> (no rounding, no NaN), Python integers by
  \<^typ>\<open>int\<close>, dictionaries by association lists in insertion order, exceptions by the
  left summand of a sum type. Leading underscores of Python names are dropped.
\<close>

section \<open>Definitions\<close>

subsection \<open>Python exceptions\<close>

datatype py_error =
    AssertionError
  | AttributeError
  | KeyError
  | RuntimeError
  | TypeError
  | UnboundLocalError
  | ZeroDivisionError

subsection \<open>EarlyStopper\<close>

text \<open>
  \<^verbatim>\<open>min_validation_loss\<close> starts at \<^verbatim>\<open>np.inf\<close>; the observed losses are finite.
  \<open>xreal\<close> adds the one infinite value, with the two comparisons and the addition that
  \<^verbatim>\<open>early_stop\<close> performs on it.
\<close>

datatype xreal = Fin real | PInf

fun xless_real :: "real \<Rightarrow> xreal \<Rightarrow> bool" where
  "xless_real v PInf = True"
| "xless_real v (Fin m) = (v < m)"

fun xgreater_real :: "real \<Rightarrow> xreal \<Rightarrow> bool" where
  "xgreater_real v PInf = False"
| "xgreater_real v (Fin m) = (v > m)"

fun xadd :: "xreal \<Rightarrow> real \<Rightarrow> xreal" where
  "xadd PInf d = PInf"
| "xadd (Fin m) d = Fin (m + d)"

record EarlyStopper =
  patience :: int
  min_delta :: real
  counter :: int
  min_validation_loss :: xreal

text \<open>\<^verbatim>\<open>EarlyStopper.__init__(patience=1, min_delta=0.0)\<close>\<close>

definition EarlyStopper_init :: "int \<Rightarrow> real \<Rightarrow> EarlyStopper" where
  "EarlyStopper_init p d =
     \<lparr>patience = p, min_delta = d, counter = 0, min_validation_loss = PInf\<rparr>"

text \<open>
  \<^verbatim>\<open>EarlyStopper.early_stop\<close>: the returned pair is the boolean result and the mutated
  object.
\<close>

definition early_stop :: "EarlyStopper \<Rightarrow> real \<Rightarrow> bool \<times> EarlyStopper" where
  "early_stop s validation_loss =
     (if xless_real validation_loss (min_validation_loss s) then
        (False, s\<lparr>min_validation_loss := Fin validation_loss, counter := 0\<rparr>)
      else if xgreater_real validation_loss (xadd (min_validation_loss s) (min_delta s)) then
        (let s' = s\<lparr>counter := counter s + 1\<rparr>
         in if counter s' \<ge> patience s' then (True, s') else (False, s'))
      else (False, s))"

text \<open>A sequence of losses fed one call at a time: the results of the calls, in order,
  and the final object.\<close>

fun feed :: "EarlyStopper \<Rightarrow> real list \<Rightarrow> bool list \<times> EarlyStopper" where
  "feed s [] = ([], s)"
| "feed s (v # vs) =
     (let (r, s') = early_stop s v; (rs, s'') = feed s' vs in (r # rs, s''))"

text \<open>
  The number of observations after the first occurrence of the best loss of \<open>xs\<close> that
  exceed that best loss by more than \<open>d\<close>.
\<close>

definition exceed_count :: "real \<Rightarrow> real list \<Rightarrow> nat" where
  "exceed_count d xs =
     length (filter (\<lambda>x. Min (set xs) + d < x) (tl (dropWhile (\<lambda>x. x \<noteq> Min (set xs)) xs)))"

text \<open>
  The stopping rule in the words of the specification, for comparison with \<open>feed\<close>: a run
  length of consecutive observations exceeding best-so-far plus \<open>d\<close>, reset by any
  observation that does not exceed it; the stop is signalled when the run length is \<open>p\<close>.
\<close>

fun consecutive_stop :: "int \<Rightarrow> real \<Rightarrow> xreal \<Rightarrow> int \<Rightarrow> real list \<Rightarrow> bool list" where
  "consecutive_stop p d best run [] = []"
| "consecutive_stop p d best run (v # vs) =
     (let run' = (if xgreater_real v (xadd best d) then run + 1 else 0);
          best' = (if xless_real v best then Fin v else best)
      in (run' = p) # consecutive_stop p d best' run' vs)"

subsection \<open>Tensors, datasets and loaders\<close>

text \<open>
  A tensor is its shape and its elements in row-major order, so that concatenation along
  dimension 0 appends the element lists. \<open>wf_tensor\<close> is the representation invariant.
\<close>

record tensor =
  shape :: "nat list"
  data :: "real list"


text \<open>\<^verbatim>\<open>t.squeeze(-1)\<close>: a trailing dimension of size 1 is removed.\<close>

definition squeeze_last :: "tensor \<Rightarrow> tensor" where
  "squeeze_last t =
     (if shape t \<noteq> [] \<and> last (shape t) = 1 then t\<lparr>shape := butlast (shape t)\<rparr> else t)"

definition zeros_like :: "tensor \<Rightarrow> tensor" where
  "zeros_like t = \<lparr>shape = shape t, data = replicate (length (data t)) 0\<rparr>"

definition ones_like :: "tensor \<Rightarrow> tensor" where
  "ones_like t = \<lparr>shape = shape t, data = replicate (length (data t)) 1\<rparr>"

text \<open>
  \<^verbatim>\<open>torch.concat([a, b], dim=0)\<close>: zero-dimensional operands and operands that differ
  beyond dimension 0 are a RuntimeError.
\<close>

fun concat0 :: "tensor \<Rightarrow> tensor \<Rightarrow> py_error + tensor" where
  "concat0 a b =
     (case (shape a, shape b) of
        (n # ra, m # rb) \<Rightarrow>
          if ra = rb then Inr \<lparr>shape = (n + m) # ra, data = data a @ data b\<rparr>
          else Inl RuntimeError
      | _ \<Rightarrow> Inl RuntimeError)"


record 't dataset =
  X :: tensor
  y :: tensor
  transform :: "'t option"

record 't DataLoader =
  dataset :: "'t dataset"
  batch_size :: nat
  shuffle :: bool

text \<open>
  \<^verbatim>\<open>DiscTrainer._generate_adversarial_data\<close>. The attack is the function
  \<^verbatim>\<open>self.attack.apply_attack\<close>; the dataset class builds a dataset from the two new tensors
  and the transform; the new loader shuffles when it is iterated, its dataset is in
  concatenation order.
\<close>

definition generate_adversarial_data ::
  "('t DataLoader \<Rightarrow> tensor) \<Rightarrow> 't DataLoader \<Rightarrow> 't option \<Rightarrow> py_error + 't DataLoader" where
  "generate_adversarial_data apply_attack loader transform' =
     (let X_orig = X (dataset loader);
          X_adv = squeeze_last (apply_attack loader)
      in if shape X_orig \<noteq> shape X_adv then Inl AssertionError
         else
           let disc_labels_zeros = zeros_like (y (dataset loader));
               disc_labels_ones = ones_like (y (dataset loader))
           in case concat0 X_orig X_adv of
                Inl e \<Rightarrow> Inl e
              | Inr new_x \<Rightarrow>
                  (case concat0 disc_labels_zeros disc_labels_ones of
                     Inl e \<Rightarrow> Inl e
                   | Inr new_y \<Rightarrow>
                       Inr \<lparr>dataset = \<lparr>X = new_x, y = new_y, transform = transform'\<rparr>,
                            batch_size = batch_size loader, shuffle = True\<rparr>))"


text \<open>Concrete loaders and attacks: two samples of three features with an attack
  that returns a trailing singleton dimension, and two samples of one feature with an
  attack that returns exactly the shape of the features.\<close>

definition example_loader :: "nat DataLoader" where
  "example_loader =
     \<lparr>dataset = \<lparr>X = \<lparr>shape = [2, 3], data = [0, 0, 0, 0, 0, 0]\<rparr>,
                  y = \<lparr>shape = [2], data = [1, 0]\<rparr>, transform = None\<rparr>,
      batch_size = 2, shuffle = False\<rparr>"

definition example_attack :: "nat DataLoader \<Rightarrow> tensor" where
  "example_attack l = \<lparr>shape = [2, 3, 1], data = [1, 2, 3, 4, 5, 6]\<rparr>"

definition column_loader :: "nat DataLoader" where
  "column_loader =
     \<lparr>dataset = \<lparr>X = \<lparr>shape = [2, 1], data = [0, 0]\<rparr>,
                  y = \<lparr>shape = [2], data = [1, 0]\<rparr>, transform = None\<rparr>,
      batch_size = 2, shuffle = False\<rparr>"

definition column_attack :: "nat DataLoader \<Rightarrow> tensor" where
  "column_attack l = \<lparr>shape = [2, 1], data = [1, 2]\<rparr>"

section \<open>Theorems\<close>

subsection \<open>EarlyStopper\<close>

lemma feed_snoc:
  "feed s (xs @ [v]) =
     (let (rs, s') = feed s xs; (r, s'') = early_stop s' v in (rs @ [r], s''))"
  by (induction xs arbitrary: s) (auto simp: Let_def split: prod.splits)

lemma length_feed: "length (fst (feed s xs)) = length xs"
proof (induction xs arbitrary: s)
  case Nil
  then show ?case by simp
next
  case (Cons v vs)
  obtain r s' where e: "early_stop s v = (r, s')" by (cases "early_stop s v")
  obtain rs s'' where f: "feed s' vs = (rs, s'')" by (cases "feed s' vs")
  from Cons [of s'] f have "length rs = length vs" by simp
  with e f show ?case by simp
qed

lemma Min_snoc:
  assumes "xs \<noteq> []"
  shows "Min (set (xs @ [v])) = min v (Min (set xs))"
proof -
  have "set (xs @ [v]) = insert v (set xs)" by simp
  moreover have "Min (insert v (set xs)) = min v (Min (set xs))"
    using assms by (intro Min_insert) auto
  ultimately show ?thesis by simp
qed

lemma exceed_count_single: "exceed_count d [v] = 0"
  by (simp add: exceed_count_def)

lemma exceed_count_new_min:
  assumes "xs \<noteq> []" "v < Min (set xs)"
  shows "exceed_count d (xs @ [v]) = 0"
proof -
  have m: "Min (set (xs @ [v])) = v"
    using assms(2) Min_snoc [OF assms(1), of v] by linarith
  have "\<forall>x\<in>set xs. x \<noteq> v"
    using assms by (metis List.finite_set Min_le less_le_not_le)
  then have "dropWhile (\<lambda>x. x \<noteq> v) (xs @ [v]) = [v]"
    by (simp add: dropWhile_append)
  then show ?thesis
    unfolding exceed_count_def m by simp
qed

lemma exceed_count_keep_min:
  assumes "xs \<noteq> []" "\<not> v < Min (set xs)"
  shows "exceed_count d (xs @ [v]) =
           exceed_count d xs + (if Min (set xs) + d < v then 1 else 0)"
proof -
  let ?m = "Min (set xs)"
  have m: "Min (set (xs @ [v])) = ?m"
    using assms(2) Min_snoc [OF assms(1), of v] by linarith
  have mem: "?m \<in> set xs"
    using assms by (simp add: Min_in)
  then have dw: "dropWhile (\<lambda>x. x \<noteq> ?m) (xs @ [v]) = dropWhile (\<lambda>x. x \<noteq> ?m) xs @ [v]"
    by (auto simp: dropWhile_append)
  have ne: "dropWhile (\<lambda>x. x \<noteq> ?m) xs \<noteq> []"
    using mem by (simp add: dropWhile_eq_Nil_conv)
  show ?thesis
    unfolding exceed_count_def m dw using ne by simp
qed

lemma feed_snoc_snd: "snd (feed s (xs @ [v])) = snd (early_stop (snd (feed s xs)) v)"
  by (simp add: feed_snoc split: prod.splits)

lemma feed_snoc_fst:
  "fst (feed s (xs @ [v])) = fst (feed s xs) @ [fst (early_stop (snd (feed s xs)) v)]"
  by (simp add: feed_snoc split: prod.splits)

lemma early_stop_Fin:
  "early_stop \<lparr>patience = p, min_delta = d, counter = c, min_validation_loss = Fin m\<rparr> v =
     (if v < m then
        (False, \<lparr>patience = p, min_delta = d, counter = 0, min_validation_loss = Fin v\<rparr>)
      else if m + d < v then
        (p \<le> c + 1, \<lparr>patience = p, min_delta = d, counter = c + 1, min_validation_loss = Fin m\<rparr>)
      else
        (False, \<lparr>patience = p, min_delta = d, counter = c, min_validation_loss = Fin m\<rparr>))"
  by (simp add: early_stop_def Let_def)

lemma feed_state:
  assumes "xs \<noteq> []"
  shows "snd (feed (EarlyStopper_init p d) xs) =
           \<lparr>patience = p, min_delta = d, counter = int (exceed_count d xs),
            min_validation_loss = Fin (Min (set xs))\<rparr>"
  using assms
proof (induction xs rule: rev_induct)
  case Nil
  then show ?case by simp
next
  case (snoc v xs)
  show ?case
  proof (cases "xs = []")
    case True
    then show ?thesis
      by (simp add: EarlyStopper_init_def early_stop_def exceed_count_single)
  next
    case False
    note IH = snoc.IH [OF False]
    show ?thesis
    proof (cases "v < Min (set xs)")
      case True
      then have "Min (set (xs @ [v])) = v"
        using Min_snoc [OF False, of v] by linarith
      with True show ?thesis
        unfolding feed_snoc_snd IH early_stop_Fin
        by (simp add: exceed_count_new_min [OF False True])
    next
      case nlt: False
      then have "Min (set (xs @ [v])) = Min (set xs)"
        using Min_snoc [OF False, of v] by linarith
      with nlt show ?thesis
        unfolding feed_snoc_snd IH early_stop_Fin
        by (simp add: exceed_count_keep_min [OF False nlt])
    qed
  qed
qed

lemma feed_Cons_fst:
  "fst (feed s (v # vs)) = fst (early_stop s v) # fst (feed (snd (early_stop s v)) vs)"
  by (simp split: prod.splits)

lemma feed_Cons_snd: "snd (feed s (v # vs)) = snd (feed (snd (early_stop s v)) vs)"
  by (simp split: prod.splits)

lemma feed_nth:
  "i < length xs \<Longrightarrow>
     fst (feed s xs) ! i = fst (early_stop (snd (feed s (take i xs))) (xs ! i))"
proof (induction xs arbitrary: s i)
  case Nil
  then show ?case by simp
next
  case (Cons v vs)
  show ?case
  proof (cases i)
    case 0
    then show ?thesis by (simp only: feed_Cons_fst) simp
  next
    case (Suc j)
    with Cons.prems have "j < length vs" by simp
    from Cons.IH [OF this, of "snd (early_stop s v)"] Suc show ?thesis
      by (simp only: feed_Cons_fst take_Suc_Cons feed_Cons_snd nth_Cons_Suc)
  qed
qed

text \<open>
  C1 (as amended). Fed the losses \<open>xs\<close> one call at a time, a fresh stopper with patience
  \<open>p\<close> and min_delta \<open>d\<close> returns true at call \<open>i\<close> exactly when the best loss among the
  first \<open>i + 1\<close> observations was already seen before call \<open>i\<close>, the loss of call \<open>i\<close>
  exceeds that best loss plus \<open>d\<close>, and the number of observations since that best loss
  that exceeded it by more than \<open>d\<close> (the counter; observations in between that do not
  exceed it leave the counter as it is) is at least \<open>p\<close>.
\<close>

theorem early_stop_trace:
  assumes "i < length xs"
  shows "fst (feed (EarlyStopper_init p d) xs) ! i =
           (Min (set (take (Suc i) xs)) \<in> set (take i xs) \<and>
            Min (set (take (Suc i) xs)) + d < xs ! i \<and>
            p \<le> int (exceed_count d (take (Suc i) xs)))"
proof (cases "i = 0")
  case True
  then show ?thesis
    using assms by (simp add: feed_nth EarlyStopper_init_def early_stop_def)
next
  case False
  let ?ys = "take i xs" and ?v = "xs ! i"
  have ne: "?ys \<noteq> []" using False assms by auto
  have tk: "take (Suc i) xs = ?ys @ [?v]"
    using assms by (simp add: take_Suc_conv_app_nth)
  have res: "fst (feed (EarlyStopper_init p d) xs) ! i =
               (\<not> ?v < Min (set ?ys) \<and> Min (set ?ys) + d < ?v \<and>
                p \<le> int (exceed_count d ?ys) + 1)"
    unfolding feed_nth [OF assms] feed_state [OF ne] early_stop_Fin by simp
  show ?thesis
  proof (cases "?v < Min (set ?ys)")
    case True
    then have m: "Min (set (?ys @ [?v])) = ?v"
      using Min_snoc [OF ne, of ?v] by linarith
    have "?v \<notin> set ?ys"
      using True by (metis List.finite_set Min_le less_le_not_le)
    with True show ?thesis
      unfolding res tk m by simp
  next
    case nlt: False
    then have m: "Min (set (?ys @ [?v])) = Min (set ?ys)"
      using Min_snoc [OF ne, of ?v] by linarith
    have "Min (set ?ys) \<in> set ?ys"
      using ne by (simp add: Min_in)
    with nlt show ?thesis
      unfolding res tk m exceed_count_keep_min [OF ne nlt] by auto
  qed
qed

theorem early_stop_trace_witness:
  "fst (feed (EarlyStopper_init 3 0) [1, 0.9, 0.95, 0.96, 0.97]) ! 4"
  using early_stop_trace [of 4 "[1, 0.9, 0.95, 0.96, 0.97]" 3 0]
  by (simp add: exceed_count_def)

text \<open>
  C1 as stated fails: with patience 2 and min_delta 0 the losses 1, 2, 1, 2 make the
  fourth call return true, although the third observation did not exceed the best loss,
  so that the fourth is the first of its run of consecutive exceeding observations.
\<close>

theorem early_stop_not_consecutive:
  "fst (feed (EarlyStopper_init 2 0) [1, 2, 1, 2]) = [False, False, False, True] \<and>
   consecutive_stop 2 0 PInf 0 [1, 2, 1, 2] = [False, False, False, False]"
  by (simp add: EarlyStopper_init_def early_stop_def)

subsection \<open>Adversarial re-labelling\<close>




lemma concat0_Cons:
  "shape a = n # r \<Longrightarrow> shape b = m # r \<Longrightarrow>
     concat0 a b = Inr \<lparr>shape = (n + m) # r, data = data a @ data b\<rparr>"
  by simp

lemma generate_adversarial_data_ok:
  assumes sx: "shape (X (dataset loader)) = n # rx"
    and sy: "shape (y (dataset loader)) = k # ry"
    and m: "shape (squeeze_last (apply_attack loader)) = shape (X (dataset loader))"
  shows "generate_adversarial_data apply_attack loader tr =
           Inr \<lparr>dataset =
                  \<lparr>X = \<lparr>shape = (n + n) # rx,
                         data = data (X (dataset loader)) @ data (squeeze_last (apply_attack loader))\<rparr>,
                   y = \<lparr>shape = (k + k) # ry,
                         data = replicate (length (data (y (dataset loader)))) 0 @
                                replicate (length (data (y (dataset loader)))) 1\<rparr>,
                   transform = tr\<rparr>,
                batch_size = batch_size loader, shuffle = True\<rparr>"
proof -
  have a: "shape (squeeze_last (apply_attack loader)) = n # rx" using m sx by simp
  have x: "concat0 (X (dataset loader)) (squeeze_last (apply_attack loader)) =
             Inr \<lparr>shape = (n + n) # rx,
                  data = data (X (dataset loader)) @ data (squeeze_last (apply_attack loader))\<rparr>"
    by (rule concat0_Cons [OF sx a])
  have l: "concat0 (zeros_like (y (dataset loader))) (ones_like (y (dataset loader))) =
             Inr \<lparr>shape = (k + k) # ry,
                  data = replicate (length (data (y (dataset loader)))) 0 @
                         replicate (length (data (y (dataset loader)))) 1\<rparr>"
    using sy by (simp add: zeros_like_def ones_like_def)
  show ?thesis
    unfolding generate_adversarial_data_def Let_def x l using m by simp
qed




lemma concat0_same_shape:
  "shape a = shape b \<Longrightarrow> concat0 a b = Inl e \<Longrightarrow> e = RuntimeError"
  by (auto split: list.splits if_splits)

text \<open>
  C4 (as amended). The call fails with AssertionError exactly when the attack output
  after \<^verbatim>\<open>squeeze(-1)\<close> differs in shape from the original feature tensor; when these
  shapes agree and the feature and label tensors have a leading sample dimension, a
  loader is returned.
\<close>

theorem generate_adversarial_data_assertion:
  "(generate_adversarial_data apply_attack loader tr = Inl AssertionError \<longleftrightarrow>
      shape (squeeze_last (apply_attack loader)) \<noteq> shape (X (dataset loader))) \<and>
   (shape (squeeze_last (apply_attack loader)) = shape (X (dataset loader)) \<longrightarrow>
      shape (X (dataset loader)) \<noteq> [] \<longrightarrow> shape (y (dataset loader)) \<noteq> [] \<longrightarrow>
      (\<exists>adv. generate_adversarial_data apply_attack loader tr = Inr adv))"
proof (intro conjI impI)
  show "generate_adversarial_data apply_attack loader tr = Inl AssertionError \<longleftrightarrow>
      shape (squeeze_last (apply_attack loader)) \<noteq> shape (X (dataset loader))"
  proof (cases "shape (X (dataset loader)) = shape (squeeze_last (apply_attack loader))")
    case False
    then show ?thesis by (auto simp: generate_adversarial_data_def Let_def)
  next
    case True
    have "generate_adversarial_data apply_attack loader tr \<noteq> Inl AssertionError"
      using True
      by (auto simp: generate_adversarial_data_def Let_def zeros_like_def ones_like_def
               split: sum.splits list.splits if_splits)
    with True show ?thesis by simp
  qed
next
  assume m: "shape (squeeze_last (apply_attack loader)) = shape (X (dataset loader))"
    and "shape (X (dataset loader)) \<noteq> []" "shape (y (dataset loader)) \<noteq> []"
  then obtain n rx k ry where sx: "shape (X (dataset loader)) = n # rx"
    and sy: "shape (y (dataset loader)) = k # ry"
    by (meson list.exhaust)
  from sx sy m have "generate_adversarial_data apply_attack loader tr =
           Inr \<lparr>dataset =
                  \<lparr>X = \<lparr>shape = (n + n) # rx,
                         data = data (X (dataset loader)) @ data (squeeze_last (apply_attack loader))\<rparr>,
                   y = \<lparr>shape = (k + k) # ry,
                         data = replicate (length (data (y (dataset loader)))) 0 @
                                replicate (length (data (y (dataset loader)))) 1\<rparr>,
                   transform = tr\<rparr>,
                batch_size = batch_size loader, shuffle = True\<rparr>"
    by (rule generate_adversarial_data_ok)
  then show "\<exists>adv. generate_adversarial_data apply_attack loader tr = Inr adv" by blast
qed

theorem generate_adversarial_data_assertion_witness:
  "generate_adversarial_data column_attack column_loader None = Inl AssertionError \<and>
   (\<exists>adv. generate_adversarial_data example_attack example_loader None = Inr adv)"
  using generate_adversarial_data_assertion [of column_attack column_loader None]
    generate_adversarial_data_assertion [of example_attack example_loader None]
  by (simp add: column_attack_def column_loader_def example_attack_def example_loader_def
        squeeze_last_def)

text \<open>
  C4 as stated fails: an attack output of shape (2, 3, 1) does not match features of
  shape (2, 3), yet a loader is returned; an attack output of shape (2, 1) matches
  features of shape (2, 1) exactly, yet the assertion fails.
\<close>

theorem generate_adversarial_data_raw_shape:
  "shape (example_attack example_loader) \<noteq> shape (X (dataset example_loader)) \<and>
   generate_adversarial_data example_attack example_loader None =
     Inr \<lparr>dataset = \<lparr>X = \<lparr>shape = [4, 3], data = [0, 0, 0, 0, 0, 0, 1, 2, 3, 4, 5, 6]\<rparr>,
                      y = \<lparr>shape = [4], data = [0, 0, 1, 1]\<rparr>, transform = None\<rparr>,
          batch_size = 2, shuffle = True\<rparr> \<and>
   shape (column_attack column_loader) = shape (X (dataset column_loader)) \<and>
   generate_adversarial_data column_attack column_loader None = Inl AssertionError"
  by (simp add: generate_adversarial_data_def column_attack_def column_loader_def
        example_attack_def example_loader_def squeeze_last_def zeros_like_def ones_like_def)

end
